theory Spec2Isabelle
  imports Main "HOL-Library.Word"
begin

section \<open>The command-line PBKDF2 tool \<^verbatim>\<open>extras/kdf-keys/pbkdf2.c\<close>\<close>

text \<open>
  The program decodes a hexadecimal salt, reads a passphrase from standard input, derives a
  key with libgcrypt and prints it in hexadecimal. The embedding follows the C source
  function by function. Memory blocks are lists of bytes, a pointer is the block it points
  to (\<open>None\<close> for \<^verbatim>\<open>NULL\<close>), and a C string is the list of its characters before the
  terminating NUL (so a command-line argument never contains the character 0).

  Conventions of the model, where C leaves a choice to the platform:
  \<^item> \<^verbatim>\<open>char\<close> is a signed 8-bit type, \<^verbatim>\<open>int\<close> and \<^verbatim>\<open>unsigned int\<close> are 32 bits
    wide, \<^verbatim>\<open>long\<close> is 64 bits wide, and an \<^verbatim>\<open>unsigned int\<close> is stored least significant
    byte first (gcc with glibc on x86-64, the build named in the source);
  \<^item> a store that falls behind the end of a block is not recorded in that block (list
    update drops it); C leaves such a store undefined;
  \<^item> \<^verbatim>\<open>calloc\<close> always succeeds; \<^verbatim>\<open>realloc\<close> may fail, as the environment decides;
  \<^item> \<^verbatim>\<open>pw_len\<close> and \<^verbatim>\<open>buff_len\<close>, of type \<^verbatim>\<open>int\<close> in the source, are natural
    numbers here. For an input shorter than \<open>2^30\<close> bytes neither \<^verbatim>\<open>buff_len *= 2\<close> nor
    \<^verbatim>\<open>pw_len++\<close> leaves the range of \<^verbatim>\<open>int\<close>, and the model is exact; a longer input
    makes the doubling overflow, which C leaves undefined. Every statement about an
    arbitrary input therefore assumes that bound.
\<close>

subsection \<open>Bytes and the C library\<close>

type_synonym byte = "8 word"

definition EOF :: int where
  "EOF = - 1"

definition BLOCK_SIZE :: nat where
  "BLOCK_SIZE = 40"

definition newline :: char where
  "newline = CHR 0x0A"

definition calloc :: "nat \<Rightarrow> byte list" where
  "calloc n = replicate n 0"

text \<open>
  \<^verbatim>\<open>strlen\<close>: the number of bytes before the first NUL. A block without a NUL makes the C
  function read behind the block; the model stops at the end of the block.
\<close>

fun strlen :: "byte list \<Rightarrow> nat" where
  "strlen [] = 0"
| "strlen (b # bs) = (if b = 0 then 0 else Suc (strlen bs))"

text \<open>
  The three results of one \<^verbatim>\<open>sscanf\<close> call with a single conversion: end of input before
  anything was read (the call returns \<^verbatim>\<open>EOF\<close>), no match (it returns 0, and stores
  nothing), and a converted value (it returns 1 and stores the value).
\<close>

datatype 'a scanned = Input_Failure | Matching_Failure | Converted 'a

fun sscanf_ret :: "'a scanned \<Rightarrow> int" where
  "sscanf_ret Input_Failure = EOF"
| "sscanf_ret Matching_Failure = 0"
| "sscanf_ret (Converted v) = 1"

definition isspace :: "char \<Rightarrow> bool" where
  "isspace c = (c = CHR '' '' \<or> c = CHR 0x09 \<or> c = CHR 0x0A \<or> c = CHR 0x0B \<or>
     c = CHR 0x0C \<or> c = CHR 0x0D)"

definition isdigit :: "char \<Rightarrow> bool" where
  "isdigit c = (48 \<le> (of_char c :: nat) \<and> (of_char c :: nat) \<le> 57)"

definition isxdigit :: "char \<Rightarrow> bool" where
  "isxdigit c = (isdigit c \<or> (97 \<le> (of_char c :: nat) \<and> (of_char c :: nat) \<le> 102) \<or>
     (65 \<le> (of_char c :: nat) \<and> (of_char c :: nat) \<le> 70))"

definition digit_value :: "char \<Rightarrow> nat" where
  "digit_value c =
     (let n = (of_char c :: nat) in
      if 97 \<le> n then n - 87 else if 65 \<le> n then n - 55 else n - 48)"

text \<open>The value of a digit sequence in a base, most significant digit first.\<close>

fun number_of :: "nat \<Rightarrow> nat \<Rightarrow> char list \<Rightarrow> nat" where
  "number_of base acc [] = acc"
| "number_of base acc (c # cs) = number_of base (acc * base + digit_value c) cs"

text \<open>
  Modelled from the C library (\<^verbatim>\<open>sscanf\<close> is not part of the repository):
  the conversion \<^verbatim>\<open>%Nx\<close> with field width \<open>N\<close>. White space is skipped first; an empty
  rest is an input failure. Then, within the field width, come an optional sign, an
  optional \<^verbatim>\<open>0x\<close> prefix and hexadecimal digits, up to the first character that is not
  one. No digit at all is a matching failure. The value is that of \<^verbatim>\<open>strtoul\<close>, stored
  in an \<^verbatim>\<open>unsigned int\<close>: a minus sign negates modulo \<open>2^32\<close>.
\<close>

definition sscanf_x :: "nat \<Rightarrow> string \<Rightarrow> nat scanned" where
  "sscanf_x width s =
     (case dropWhile isspace s of
        [] \<Rightarrow> Input_Failure
      | c # r \<Rightarrow>
          (let signed = (c = CHR ''-'' \<or> c = CHR ''+'');
               w1 = (if signed then width - 1 else width);
               s1 = (if signed then r else c # r);
               zero = (w1 \<noteq> 0 \<and> s1 \<noteq> [] \<and> hd s1 = CHR ''0'');
               w2 = (if zero then w1 - 1 else w1);
               s2 = (if zero then tl s1 else s1);
               prefix = (zero \<and> w2 \<noteq> 0 \<and> s2 \<noteq> [] \<and> (hd s2 = CHR ''x'' \<or> hd s2 = CHR ''X''));
               w3 = (if prefix then w2 - 1 else w2);
               s3 = (if prefix then tl s2 else s2);
               ds = (if zero then ''0'' else []) @ takeWhile isxdigit (take w3 s3);
               v = number_of 16 0 ds mod 2 ^ 32
           in if ds = [] then Matching_Failure
              else Converted (if c = CHR ''-'' then (2 ^ 32 - v) mod 2 ^ 32 else v)))"

text \<open>
  The value \<^verbatim>\<open>strtol\<close> returns for a numeral: the mathematical value, or the nearest
  bound of \<^verbatim>\<open>long\<close> when that is out of range.
\<close>

definition strtol_value :: "int \<Rightarrow> int" where
  "strtol_value v = max (- 9223372036854775808) (min 9223372036854775807 v)"

text \<open>A \<^verbatim>\<open>long\<close> stored into an \<^verbatim>\<open>int\<close>: the low 32 bits, read as two's complement.\<close>

definition int_of_long :: "int \<Rightarrow> int" where
  "int_of_long v = (v + 2147483648) mod 4294967296 - 2147483648"

text \<open>
  Modelled from the C library: the conversion \<^verbatim>\<open>%d\<close> into an \<^verbatim>\<open>int\<close>. White space is
  skipped, then come an optional sign and decimal digits up to the first character that
  is not one. The digits are converted as by \<^verbatim>\<open>strtol\<close> and the result is stored into
  the \<^verbatim>\<open>int\<close>, so a numeral outside the range of \<^verbatim>\<open>int\<close> is cut to 32 bits:
  \<open>4294967296\<close> is read as 0 and \<open>-4294967295\<close> as 1.
\<close>

definition sscanf_d :: "string \<Rightarrow> int scanned" where
  "sscanf_d s =
     (case dropWhile isspace s of
        [] \<Rightarrow> Input_Failure
      | c # r \<Rightarrow>
          (let signed = (c = CHR ''-'' \<or> c = CHR ''+'');
               ds = takeWhile isdigit (if signed then r else c # r);
               v = int (number_of 10 0 ds)
           in if ds = [] then Matching_Failure
              else Converted (int_of_long (strtol_value (if c = CHR ''-'' then - v else v)))))"

subsection \<open>\<^verbatim>\<open>print_hex\<close> and \<^verbatim>\<open>hex_to_binary\<close>\<close>

definition xdigit_char :: "nat \<Rightarrow> char" where
  "xdigit_char n = ''0123456789abcdef'' ! n"

text \<open>\<^verbatim>\<open>printf("%02x", b)\<close> for an \<^verbatim>\<open>unsigned char\<close>: two lowercase digits.\<close>

definition printf_02x :: "byte \<Rightarrow> string" where
  "printf_02x b = [xdigit_char (unat b div 16), xdigit_char (unat b mod 16)]"

text \<open>The lowercase hexadecimal digits.\<close>

definition lower_hex :: "char set" where
  "lower_hex = set ''0123456789abcdef''"

function print_hex_from :: "nat \<Rightarrow> byte list \<Rightarrow> int \<Rightarrow> string" where
  "print_hex_from i buf len =
     (if int i < len then printf_02x (buf ! i) @ print_hex_from (Suc i) buf len
      else [newline])"
  by pat_completeness auto
termination
  by (relation "measure (\<lambda>(i, buf, len). nat (len - int i))") auto

declare print_hex_from.simps [simp del]

definition print_hex :: "byte list \<Rightarrow> int \<Rightarrow> string" where
  "print_hex buf len = print_hex_from 0 buf len"

text \<open>
  \<^verbatim>\<open>sscanf(hex, "%2x", (unsigned int*) buf++)\<close> stores a whole \<^verbatim>\<open>unsigned int\<close> at the
  byte position: four bytes, the least significant first.
\<close>

definition store_uint :: "byte list \<Rightarrow> nat \<Rightarrow> nat \<Rightarrow> byte list" where
  "store_uint buf p v =
     buf[p := of_nat v, p + 1 := of_nat (v div 256), p + 2 := of_nat (v div 65536),
         p + 3 := of_nat (v div 16777216)]"

fun scan_into :: "byte list \<Rightarrow> nat \<Rightarrow> nat scanned \<Rightarrow> byte list" where
  "scan_into buf p (Converted v) = store_uint buf p v"
| "scan_into buf p r = buf"

text \<open>
  The loop of \<^verbatim>\<open>hex_to_binary\<close>, with the position \<open>p\<close> of \<^verbatim>\<open>buf\<close> in its block and
  the rest of \<^verbatim>\<open>hex\<close>. The first equation is the exit of the loop, the second the
  branch \<^verbatim>\<open>hex[1] == 0\<close>, the third the branch \<^verbatim>\<open>hex[1] != 0\<close>.
\<close>

fun hex_to_binary_from :: "byte list \<Rightarrow> nat \<Rightarrow> string \<Rightarrow> int \<Rightarrow> int \<times> byte list" where
  "hex_to_binary_from buf p [] count = (count, buf[p := 0])"
| "hex_to_binary_from buf p [h] count =
     (let r = sscanf_x 1 [h];
          buf' = scan_into buf p r
      in if sscanf_ret r \<noteq> 1 then (- 1, buf')
         else hex_to_binary_from buf' (Suc p) [] (count + 1))"
| "hex_to_binary_from buf p (h # h' # hex) count =
     (let r = sscanf_x 2 (h # h' # hex);
          buf' = scan_into buf p r
      in if sscanf_ret r \<noteq> 1 then (- 1, buf')
         else hex_to_binary_from buf' (Suc p) hex (count + 1))"

definition hex_to_binary :: "byte list \<Rightarrow> string \<Rightarrow> int \<times> byte list" where
  "hex_to_binary buf hex = hex_to_binary_from buf 0 hex 0"

subsection \<open>\<^verbatim>\<open>cleanup\<close>\<close>

text \<open>The loop \<^verbatim>\<open>for(i=0; i<len; i++) buf[i]=0;\<close> of the result and of the salt.\<close>

function zero_from :: "nat \<Rightarrow> int \<Rightarrow> byte list \<Rightarrow> byte list" where
  "zero_from i len buf = (if int i < len then zero_from (Suc i) len (buf[i := 0]) else buf)"
  by pat_completeness auto
termination
  by (relation "measure (\<lambda>(i, len, buf). nat (len - int i))") auto

declare zero_from.simps [simp del]

lemma strlen_le_length: "strlen bs \<le> length bs"
  by (induction bs) auto

lemma strlen_zero_at: "i < strlen bs \<Longrightarrow> strlen (bs[i := 0]) = i"
proof (induction bs arbitrary: i)
  case Nil
  then show ?case by simp
next
  case (Cons b bs)
  then show ?case by (cases i) (auto split: if_splits)
qed

text \<open>
  The loop \<^verbatim>\<open>for(i=0; i<strlen(pass); i++) pass[i]=0;\<close> of the passphrase. The bound
  \<^verbatim>\<open>strlen(pass)\<close> is evaluated again before every round, on the block as the rounds
  before have left it.
\<close>

function blank_from :: "nat \<Rightarrow> byte list \<Rightarrow> byte list" where
  "blank_from i pass = (if i < strlen pass then blank_from (Suc i) (pass[i := 0]) else pass)"
  by pat_completeness auto
termination
  by (relation "measure (\<lambda>(i, pass). strlen pass - i)") (auto simp: strlen_zero_at)

declare blank_from.simps [simp del]

text \<open>
  \<^verbatim>\<open>cleanup\<close> returns, for each of its three pointers, the content the block has at the
  moment it is handed to \<^verbatim>\<open>free\<close>; \<open>None\<close> where the pointer is \<^verbatim>\<open>NULL\<close> and
  nothing is freed.
\<close>

definition cleanup ::
  "byte list option \<Rightarrow> int \<Rightarrow> byte list option \<Rightarrow> byte list option \<Rightarrow> int \<Rightarrow>
   byte list option \<times> byte list option \<times> byte list option" where
  "cleanup result result_len pass salt salt_len =
     (map_option (zero_from 0 result_len) result,
      map_option (blank_from 0) pass,
      map_option (zero_from 0 salt_len) salt)"

subsection \<open>The environment and the outcome of a run\<close>

text \<open>
  What the program does not decide itself: whether \<^verbatim>\<open>realloc\<close> to a given size
  succeeds, the bytes a grown block holds behind the old content, the answer of
  \<^verbatim>\<open>gcry_check_version\<close>, the bytes \<^verbatim>\<open>gcry_kdf_derive\<close> writes for a passphrase,
  a salt, an iteration count and a key size (the program ignores its return code), and
  the value the uninitialised variable \<^verbatim>\<open>result_len\<close> holds before \<^verbatim>\<open>sscanf\<close>.
\<close>

record env =
  realloc_ok :: "nat \<Rightarrow> bool"
  junk :: "nat \<Rightarrow> byte"
  gcry_check_version :: bool
  gcry_kdf_derive :: "byte list \<Rightarrow> byte list \<Rightarrow> int \<Rightarrow> int \<Rightarrow> byte list"
  result_len_init :: int

text \<open>
  One call of \<^verbatim>\<open>gcry_kdf_derive\<close>: the passphrase block and the length passed with it,
  the salt block and its length, the iteration count and the key size.
\<close>

record kdf_call =
  call_pass :: "byte list"
  call_passlen :: nat
  call_salt :: "byte list"
  call_saltlen :: int
  call_iterations :: int
  call_keysize :: int

text \<open>
  What a run leaves behind: the exit code, the two output streams, the calls of the key
  derivation, the blocks freed by \<^verbatim>\<open>cleanup\<close> (with the content they had when freed)
  and the blocks never freed (with the content they have when the process ends).
\<close>

record outcome =
  exit_code :: int
  stdout :: string
  stderr :: string
  kdf_calls :: "kdf_call list"
  freed_result :: "byte list option"
  freed_pass :: "byte list option"
  freed_salt :: "byte list option"
  leaked :: "byte list list"

definition exit_early :: "int \<Rightarrow> string \<Rightarrow> byte list list \<Rightarrow> outcome" where
  "exit_early code msg blocks =
     \<lparr>exit_code = code, stdout = [], stderr = msg, kdf_calls = [],
      freed_result = None, freed_pass = None, freed_salt = None, leaked = blocks\<rparr>"

definition exit_clean ::
  "int \<Rightarrow> string \<Rightarrow> string \<Rightarrow> kdf_call list \<Rightarrow>
   byte list option \<times> byte list option \<times> byte list option \<Rightarrow> byte list list \<Rightarrow> outcome" where
  "exit_clean code out msg calls freed blocks =
     \<lparr>exit_code = code, stdout = out, stderr = msg, kdf_calls = calls,
      freed_result = fst freed, freed_pass = fst (snd freed), freed_salt = snd (snd freed),
      leaked = blocks\<rparr>"

subsection \<open>Reading the passphrase\<close>

text \<open>
  \<^verbatim>\<open>getchar\<close> on the rest of standard input: the next byte as a value from 0 to 255,
  or \<^verbatim>\<open>EOF\<close> at the end of the stream.
\<close>

fun getchar :: "byte list \<Rightarrow> int \<times> byte list" where
  "getchar [] = (EOF, [])"
| "getchar (b # bs) = (uint b, bs)"

text \<open>
  \<^verbatim>\<open>realloc(pass, n)\<close>: on success the old content followed by bytes the program has
  not written; on failure \<^verbatim>\<open>NULL\<close>, and the old block stays as it is. Whether a
  successful call moves the block, and what then becomes of the old storage, is the
  allocator's matter and not recorded.
\<close>

definition realloc :: "env \<Rightarrow> byte list \<Rightarrow> nat \<Rightarrow> byte list option" where
  "realloc e block n =
     (if realloc_ok e n then Some (take n block @ map (junk e) [length block ..< n]) else None)"

text \<open>
  The result of the read loop: either \<^verbatim>\<open>realloc\<close> failed and \<^verbatim>\<open>pass\<close> was
  overwritten with \<^verbatim>\<open>NULL\<close>, the old block (the argument) no longer being referred to
  by any variable; or the loop ended with \<^verbatim>\<open>pass\<close>, \<^verbatim>\<open>pw_len\<close> and
  \<^verbatim>\<open>buff_len\<close>.
\<close>

datatype read_result = Alloc_Failed "byte list" | Read_Done "byte list" nat nat

text \<open>
  The loop \<^verbatim>\<open>while (c != EOF)\<close>. The variable \<^verbatim>\<open>c\<close> is a \<^verbatim>\<open>char\<close>: the result of
  \<^verbatim>\<open>getchar\<close> is cut to eight bits when it is assigned, and the comparison with
  \<^verbatim>\<open>EOF\<close> reads those eight bits as a signed number. The counters \<^verbatim>\<open>pw_len\<close> and
  \<^verbatim>\<open>buff_len\<close> are \<^verbatim>\<open>int\<close> in the source: while fewer than \<open>2^30\<close> bytes have been
  stored, \<^verbatim>\<open>buff_len * 2\<close> and \<^verbatim>\<open>pw_len + 1\<close> stay below \<open>2^31\<close> and the natural
  numbers used here are those values; beyond that the source overflows.
\<close>

function read_loop ::
  "env \<Rightarrow> byte \<Rightarrow> byte list \<Rightarrow> byte list \<Rightarrow> nat \<Rightarrow> nat \<Rightarrow> read_result" where
  "read_loop e c inp pass pw_len buff_len =
     (if sint c \<noteq> EOF then
        (if pw_len = buff_len then
           (case realloc e pass (buff_len * 2) of
              None \<Rightarrow> Alloc_Failed pass
            | Some pass' \<Rightarrow>
                read_loop e (word_of_int (fst (getchar inp))) (snd (getchar inp))
                  (pass'[pw_len := c]) (pw_len + 1) (buff_len * 2))
         else
           read_loop e (word_of_int (fst (getchar inp))) (snd (getchar inp))
             (pass[pw_len := c]) (pw_len + 1) buff_len)
      else Read_Done pass pw_len buff_len)"
  by pat_completeness auto
termination
proof (relation "measure (\<lambda>(e, c, inp, pass, pw_len, buff_len).
    length inp + (if sint c \<noteq> EOF then 1 else 0))", goal_cases)
  case 1
  then show ?case by simp
next
  case (2 e c inp pass pw_len buff_len pass')
  then show ?case by (cases inp) (auto simp: EOF_def)
next
  case (3 e c inp pass pw_len buff_len)
  then show ?case by (cases inp) (auto simp: EOF_def)
qed

declare read_loop.simps [simp del]

text \<open>Lines 142 to 157: the first block, the first \<^verbatim>\<open>getchar\<close> and the loop.\<close>

definition read_passphrase :: "env \<Rightarrow> byte list \<Rightarrow> read_result" where
  "read_passphrase e inp =
     read_loop e (word_of_int (fst (getchar inp))) (snd (getchar inp))
       (calloc BLOCK_SIZE) 0 BLOCK_SIZE"

subsection \<open>\<^verbatim>\<open>main\<close>\<close>

definition sizeof_pointer :: nat where
  "sizeof_pointer = 8"

text \<open>The variable a \<^verbatim>\<open>sscanf\<close> call leaves behind: written only by a conversion.\<close>

fun scanned_into :: "int \<Rightarrow> int scanned \<Rightarrow> int" where
  "scanned_into old (Converted v) = v"
| "scanned_into old r = old"

text \<open>
  Lines 165 to 186: the key derivation, the output and the last \<^verbatim>\<open>cleanup\<close>.
  \<^verbatim>\<open>gcry_kdf_derive\<close> reads \<^verbatim>\<open>pw_len-1\<close> bytes of the passphrase and \<^verbatim>\<open>salt_len\<close>
  bytes of the salt, and writes at most \<^verbatim>\<open>result_len\<close> bytes to the result. The three
  \<^verbatim>\<open>gcry_control\<close> calls before it set up the library and leave no trace in the outcome.
\<close>

definition main_derive ::
  "env \<Rightarrow> byte list \<Rightarrow> int \<Rightarrow> int \<Rightarrow> int \<Rightarrow> byte list \<Rightarrow> nat \<Rightarrow> outcome" where
  "main_derive e salt salt_len ic result_len pass pw_len =
     (let result = calloc (nat result_len * sizeof_pointer) in
      if \<not> gcry_check_version e then
        exit_clean 2 [] (''libgcrypt version mismatch'' @ [newline]) []
          (cleanup (Some result) result_len (Some pass) (Some salt) salt_len) []
      else
        (let call = \<lparr>call_pass = pass, call_passlen = pw_len - 1, call_salt = salt,
                      call_saltlen = salt_len, call_iterations = ic,
                      call_keysize = result_len\<rparr>;
             key = take (nat result_len)
                     (gcry_kdf_derive e (take (pw_len - 1) pass) (take (nat salt_len) salt)
                        ic result_len);
             result' = key @ drop (length key) result
         in exit_clean 0 (print_hex result' result_len) [] [call]
              (cleanup (Some result') result_len (Some pass) (Some salt) salt_len) []))"

text \<open>Lines 142 to 163: the passphrase is read, checked and cut by its last byte.\<close>

definition main_read ::
  "env \<Rightarrow> byte list \<Rightarrow> int \<Rightarrow> int \<Rightarrow> int \<Rightarrow> byte list \<Rightarrow> outcome" where
  "main_read e salt salt_len ic result_len inp =
     (case read_passphrase e inp of
        Alloc_Failed old \<Rightarrow>
          exit_clean 3 [] ''Error allocating memory'' []
            (cleanup None result_len None (Some salt) salt_len) [old]
      | Read_Done pass pw_len buff_len \<Rightarrow>
          if pw_len \<le> 1 then
            exit_clean 1 [] (''Error: password is empty'' @ [newline]) []
              (cleanup None result_len (Some pass) (Some salt) salt_len) []
          else main_derive e salt salt_len ic result_len (pass[pw_len - 1 := 0]) pw_len)"

text \<open>
  Lines 112 to 133: the arguments. \<open>argv\<close> is the whole argument vector, the program
  name first, so \<^verbatim>\<open>argc\<close> is its length.
\<close>

definition main :: "env \<Rightarrow> string list \<Rightarrow> byte list \<Rightarrow> outcome" where
  "main e argv inp =
     (if length argv \<noteq> 4 then
        exit_early 10
          (''usage: '' @ (case argv of [] \<Rightarrow> ''(null)'' | a # _ \<Rightarrow> a) @
           '' salt count len <passwd >binary_key_iv'' @ [newline]) []
      else
        (let decoded = hex_to_binary (calloc (length (argv ! 1) div 2 + 3)) (argv ! 1);
             salt_len = fst decoded;
             salt = snd decoded
         in if salt_len \<le> 0 then
              exit_early 1
                (''Error: '' @ argv ! 1 @
                 '' is not a valid salt (it must be a hexadecimal string)'' @ [newline]) [salt]
            else
              (let ic = scanned_into 0 (sscanf_d (argv ! 2)) in
               if sscanf_ret (sscanf_d (argv ! 2)) = 0 \<or> ic \<le> 0 then
                 exit_early 1 (''Error: count must be a positive integer'' @ [newline]) [salt]
               else
                 (let result_len = scanned_into (result_len_init e) (sscanf_d (argv ! 3)) in
                  if sscanf_ret (sscanf_d (argv ! 3)) = 0 \<or> result_len \<le> 0 then
                    exit_early 1
                      (''Error: result_len must be a positive integer'' @ [newline]) [salt]
                  else main_read e salt salt_len ic result_len inp))))"

text \<open>The accepted arguments, as \<^verbatim>\<open>main\<close> computes them on lines 118 to 133.\<close>

definition salt_of :: "string list \<Rightarrow> int \<times> byte list" where
  "salt_of argv = hex_to_binary (calloc (length (argv ! 1) div 2 + 3)) (argv ! 1)"

definition count_of :: "string list \<Rightarrow> int" where
  "count_of argv = scanned_into 0 (sscanf_d (argv ! 2))"

definition keysize_of :: "env \<Rightarrow> string list \<Rightarrow> int" where
  "keysize_of e argv = scanned_into (result_len_init e) (sscanf_d (argv ! 3))"

text \<open>The run passes all checks of the arguments and reaches the passphrase.\<close>

definition args_accepted :: "env \<Rightarrow> string list \<Rightarrow> bool" where
  "args_accepted e argv =
     (length argv = 4 \<and> 0 < fst (salt_of argv) \<and>
      sscanf_ret (sscanf_d (argv ! 2)) \<noteq> 0 \<and> 0 < count_of argv \<and>
      sscanf_ret (sscanf_d (argv ! 3)) \<noteq> 0 \<and> 0 < keysize_of e argv)"

text \<open>
  The result block after the key derivation for a passphrase, with the accepted arguments:
  the bytes written by \<^verbatim>\<open>gcry_kdf_derive\<close>, then what \<^verbatim>\<open>calloc\<close> left.
\<close>

definition result_block :: "env \<Rightarrow> string list \<Rightarrow> byte list \<Rightarrow> byte list" where
  "result_block e argv passphrase =
     (let key = take (nat (keysize_of e argv))
                  (gcry_kdf_derive e passphrase (take (nat (fst (salt_of argv))) (snd (salt_of argv)))
                     (count_of argv) (keysize_of e argv))
      in key @ drop (length key) (calloc (nat (keysize_of e argv) * sizeof_pointer)))"

text \<open>
  An environment and arguments to run the model on: every \<^verbatim>\<open>realloc\<close> succeeds, the
  library is accepted, and a stand-in for the key derivation repeats passphrase and salt.
\<close>

definition sample_env :: env where
  "sample_env =
     \<lparr>realloc_ok = (\<lambda>n. True), junk = (\<lambda>i. 0xAA), gcry_check_version = True,
      gcry_kdf_derive = (\<lambda>p s ic n. take (nat n) (p @ s @ replicate (nat n) 0)),
      result_len_init = 0\<rparr>"

definition sample_argv :: "string list" where
  "sample_argv = [''pbkdf2'', ''0011'', ''1'', ''4'']"

section \<open>Properties\<close>

subsection \<open>What the loops of \<^verbatim>\<open>cleanup\<close> and of the reader compute\<close>

lemma strlen_0_update: "strlen bs = 0 \<Longrightarrow> bs[0 := 0] = bs"
  by (cases bs) (auto split: if_splits)

lemma blank_from_first: "blank_from 0 pass = pass[0 := 0]"
proof (cases "0 < strlen pass")
  case True
  then have "strlen (pass[0 := 0]) = 0" by (simp add: strlen_zero_at)
  then have "blank_from (Suc 0) (pass[0 := 0]) = pass[0 := 0]"
    by (subst blank_from.simps) simp
  with True show ?thesis by (subst blank_from.simps) simp
next
  case False
  then show ?thesis by (subst blank_from.simps) (simp add: strlen_0_update)
qed

lemma length_zero_from [simp]: "length (zero_from i len buf) = length buf"
proof (induction i len buf rule: zero_from.induct)
  case (1 i len buf)
  then show ?case by (subst zero_from.simps) simp
qed

lemma nth_zero_from:
  "j < length buf \<Longrightarrow> zero_from i len buf ! j = (if i \<le> j \<and> int j < len then 0 else buf ! j)"
proof (induction i len buf rule: zero_from.induct)
  case (1 i len buf)
  show ?case
  proof (cases "int i < len")
    case True
    have "zero_from i len buf ! j = zero_from (Suc i) len (buf[i := 0]) ! j"
      using True by (subst zero_from.simps) simp
    also have "\<dots> = (if Suc i \<le> j \<and> int j < len then 0 else buf[i := 0] ! j)"
      using "1.IH" [OF True] "1.prems" by simp
    also have "\<dots> = (if i \<le> j \<and> int j < len then 0 else buf ! j)"
      using True "1.prems" by (auto simp: nth_list_update)
    finally show ?thesis .
  next
    case False
    then show ?thesis by (subst zero_from.simps) auto
  qed
qed

lemma sint_byte_EOF: "sint (c :: byte) = EOF \<longleftrightarrow> c = 0xFF"
proof
  assume "sint c = EOF"
  then have "sint c = sint (- 1 :: byte)" by (simp add: EOF_def)
  then have "c = - 1" by (rule signed_word_eqI)
  then show "c = 0xFF" by simp
next
  assume "c = 0xFF"
  then show "sint c = EOF" by (simp add: EOF_def)
qed

lemma read_loop_EOF: "read_loop e 0xFF inp pass pw_len buff_len = Read_Done pass pw_len buff_len"
  by (subst read_loop.simps) (simp add: EOF_def)

lemma read_loop_next_Nil:
  "read_loop e (word_of_int (fst (getchar []))) (snd (getchar [])) pass pw_len buff_len =
   Read_Done pass pw_len buff_len"
proof -
  have c: "(word_of_int (fst (getchar [])) :: byte) = 0xFF"
    by (simp add: EOF_def)
  show ?thesis unfolding c by (rule read_loop_EOF)
qed

lemma read_loop_next_Cons:
  "read_loop e (word_of_int (fst (getchar (b # bs)))) (snd (getchar (b # bs))) pass pw_len buff_len =
   read_loop e b bs pass pw_len buff_len"
  by simp

lemma read_loop_store:
  assumes "c \<noteq> 0xFF" and "pw_len \<noteq> buff_len"
  shows "read_loop e c inp pass pw_len buff_len =
         read_loop e (word_of_int (fst (getchar inp))) (snd (getchar inp))
           (pass[pw_len := c]) (pw_len + 1) buff_len"
  using assms by (subst read_loop.simps) (simp add: sint_byte_EOF)

lemma read_loop_grow:
  assumes "c \<noteq> 0xFF" and "pw_len = buff_len"
  shows "read_loop e c inp pass pw_len buff_len =
         (case realloc e pass (buff_len * 2) of
            None \<Rightarrow> Alloc_Failed pass
          | Some pass' \<Rightarrow>
              read_loop e (word_of_int (fst (getchar inp))) (snd (getchar inp))
                (pass'[pw_len := c]) (pw_len + 1) (buff_len * 2))"
  using assms by (subst read_loop.simps) (simp add: sint_byte_EOF)

text \<open>One round of the loop, seen from outside: the block the byte is stored in.\<close>

lemma read_loop_round:
  assumes ok: "\<forall>n. realloc_ok e n" and c: "c \<noteq> 0xFF"
    and len: "length pass = buff_len" and pw: "pw_len \<le> buff_len" and pos: "0 < buff_len"
  shows "\<exists>pass' buff_len'.
           read_loop e c inp pass pw_len buff_len =
             read_loop e (word_of_int (fst (getchar inp))) (snd (getchar inp))
               pass' (pw_len + 1) buff_len' \<and>
           length pass' = buff_len' \<and> pw_len + 1 \<le> buff_len' \<and>
           take (pw_len + 1) pass' = take pw_len pass @ [c]"
proof (cases "pw_len = buff_len")
  case True
  let ?grown = "pass @ map (junk e) [length pass ..< buff_len * 2]"
  have r: "realloc e pass (buff_len * 2) = Some ?grown"
    using ok len by (simp add: realloc_def)
  have "read_loop e c inp pass pw_len buff_len =
        read_loop e (word_of_int (fst (getchar inp))) (snd (getchar inp))
          (?grown[pw_len := c]) (pw_len + 1) (buff_len * 2)"
    using read_loop_grow [OF c True, of e inp pass] r by simp
  moreover have "length (?grown[pw_len := c]) = buff_len * 2"
    using len by simp
  moreover have "pw_len + 1 \<le> buff_len * 2"
    using True pos by simp
  moreover have "take (pw_len + 1) (?grown[pw_len := c]) = take pw_len pass @ [c]"
    using True len pos by (simp add: take_Suc_conv_app_nth nth_append)
  ultimately show ?thesis by blast
next
  case False
  have "read_loop e c inp pass pw_len buff_len =
        read_loop e (word_of_int (fst (getchar inp))) (snd (getchar inp))
          (pass[pw_len := c]) (pw_len + 1) buff_len"
    by (rule read_loop_store [OF c False])
  moreover have "length (pass[pw_len := c]) = buff_len"
    using len by simp
  moreover have "pw_len + 1 \<le> buff_len"
    using False pw by simp
  moreover have "take (pw_len + 1) (pass[pw_len := c]) = take pw_len pass @ [c]"
    using False pw len by (simp add: take_Suc_conv_app_nth)
  ultimately show ?thesis by blast
qed

lemma read_loop_all:
  assumes ok: "\<forall>n. realloc_ok e n"
  shows "c \<noteq> 0xFF \<Longrightarrow> 0xFF \<notin> set inp \<Longrightarrow> length pass = buff_len \<Longrightarrow>
         pw_len \<le> buff_len \<Longrightarrow> 0 < buff_len \<Longrightarrow>
         \<exists>pass' buff_len'.
           read_loop e c inp pass pw_len buff_len =
             Read_Done pass' (pw_len + 1 + length inp) buff_len' \<and>
           length pass' = buff_len' \<and> pw_len + 1 + length inp \<le> buff_len' \<and>
           take (pw_len + 1 + length inp) pass' = take pw_len pass @ c # inp"
proof (induction inp arbitrary: c pass pw_len buff_len)
  case Nil
  from read_loop_round [OF ok Nil(1) Nil(3) Nil(4) Nil(5), of "[]"]
  obtain pass' buff_len' where
    "read_loop e c [] pass pw_len buff_len =
       read_loop e (word_of_int (fst (getchar []))) (snd (getchar [])) pass' (pw_len + 1) buff_len'"
    and "length pass' = buff_len'" and "pw_len + 1 \<le> buff_len'"
    and "take (pw_len + 1) pass' = take pw_len pass @ [c]"
    by blast
  then show ?case by (auto simp only: read_loop_next_Nil list.size add_0_right)
next
  case (Cons b bs)
  from read_loop_round [OF ok Cons.prems(1) Cons.prems(3) Cons.prems(4) Cons.prems(5), of "b # bs"]
  obtain pass' buff_len' where
    step: "read_loop e c (b # bs) pass pw_len buff_len = read_loop e b bs pass' (pw_len + 1) buff_len'"
    and l: "length pass' = buff_len'" and p: "pw_len + 1 \<le> buff_len'"
    and t: "take (pw_len + 1) pass' = take pw_len pass @ [c]"
    unfolding read_loop_next_Cons by blast
  have b: "b \<noteq> 0xFF" and bs: "0xFF \<notin> set bs"
    using Cons.prems(2) by auto
  have pos: "0 < buff_len'" using p by simp
  from Cons.IH [OF b bs l p pos]
  obtain pass'' buff_len'' where
    "read_loop e b bs pass' (pw_len + 1) buff_len' =
       Read_Done pass'' (pw_len + 1 + 1 + length bs) buff_len''"
    and "length pass'' = buff_len''" and "pw_len + 1 + 1 + length bs \<le> buff_len''"
    and "take (pw_len + 1 + 1 + length bs) pass'' = take (pw_len + 1) pass' @ b # bs"
    by blast
  with step t show ?case by simp
qed

lemma read_passphrase_Nil: "read_passphrase e [] = Read_Done (calloc BLOCK_SIZE) 0 BLOCK_SIZE"
  unfolding read_passphrase_def by (rule read_loop_next_Nil)

lemma read_passphrase_single:
  "read_passphrase e [b] =
     (if b = 0xFF then Read_Done (calloc BLOCK_SIZE) 0 BLOCK_SIZE
      else Read_Done ((calloc BLOCK_SIZE)[0 := b]) 1 BLOCK_SIZE)"
proof (cases "b = 0xFF")
  case True
  then show ?thesis
    unfolding read_passphrase_def read_loop_next_Cons by (simp add: read_loop_EOF)
next
  case False
  have "read_loop e b [] (calloc BLOCK_SIZE) 0 BLOCK_SIZE =
        Read_Done ((calloc BLOCK_SIZE)[0 := b]) 1 BLOCK_SIZE"
    using read_loop_store [OF False, of 0 BLOCK_SIZE e "[]" "calloc BLOCK_SIZE"]
    by (simp only: read_loop_next_Nil) (simp add: BLOCK_SIZE_def)
  with False show ?thesis
    unfolding read_passphrase_def read_loop_next_Cons by simp
qed

lemma read_passphrase_all:
  assumes ok: "\<forall>n. realloc_ok e n" and inp: "0xFF \<notin> set inp" and ne: "inp \<noteq> []"
    and short: "length inp < 1073741824"
  shows "\<exists>pass buff_len.
           read_passphrase e inp = Read_Done pass (length inp) buff_len \<and>
           length pass = buff_len \<and> length inp \<le> buff_len \<and> take (length inp) pass = inp"
proof -
  from ne obtain b bs where eq: "inp = b # bs" by (cases inp) auto
  with inp have b: "b \<noteq> 0xFF" and bs: "0xFF \<notin> set bs" by auto
  have "\<exists>pass' buff_len'.
          read_loop e b bs (calloc BLOCK_SIZE) 0 BLOCK_SIZE =
            Read_Done pass' (0 + 1 + length bs) buff_len' \<and>
          length pass' = buff_len' \<and> 0 + 1 + length bs \<le> buff_len' \<and>
          take (0 + 1 + length bs) pass' = take 0 (calloc BLOCK_SIZE) @ b # bs"
    by (rule read_loop_all [OF ok b bs]) (simp_all add: calloc_def BLOCK_SIZE_def)
  then show ?thesis
    unfolding read_passphrase_def eq read_loop_next_Cons by simp
qed

subsection \<open>The hexadecimal codec\<close>

lemma xdigit_char_table:
  "list_all (\<lambda>n. isxdigit (xdigit_char n) \<and> \<not> isspace (xdigit_char n) \<and>
      xdigit_char n \<noteq> CHR ''-'' \<and> xdigit_char n \<noteq> CHR ''+'' \<and>
      xdigit_char n \<noteq> CHR ''x'' \<and> xdigit_char n \<noteq> CHR ''X'' \<and>
      digit_value (xdigit_char n) = n \<and> (xdigit_char n = CHR ''0'') = (n = 0) \<and>
      xdigit_char n \<in> lower_hex) [0..<16]"
  by code_simp

lemma xdigit_char_props:
  assumes "n < 16"
  shows "isxdigit (xdigit_char n)" and "\<not> isspace (xdigit_char n)"
    and "xdigit_char n \<noteq> CHR ''-''" and "xdigit_char n \<noteq> CHR ''+''"
    and "xdigit_char n \<noteq> CHR ''x''" and "xdigit_char n \<noteq> CHR ''X''"
    and "digit_value (xdigit_char n) = n" and "(xdigit_char n = CHR ''0'') = (n = 0)"
    and "xdigit_char n \<in> lower_hex"
proof -
  have "n \<in> set [0..<16]" using assms by simp
  with xdigit_char_table show "isxdigit (xdigit_char n)" and "\<not> isspace (xdigit_char n)"
    and "xdigit_char n \<noteq> CHR ''-''" and "xdigit_char n \<noteq> CHR ''+''"
    and "xdigit_char n \<noteq> CHR ''x''" and "xdigit_char n \<noteq> CHR ''X''"
    and "digit_value (xdigit_char n) = n" and "(xdigit_char n = CHR ''0'') = (n = 0)"
    and "xdigit_char n \<in> lower_hex"
    unfolding list_all_iff by blast+
qed

lemma sscanf_x_two_digits:
  assumes a: "a < 16" and b: "b < 16"
  shows "sscanf_x 2 (xdigit_char a # xdigit_char b # rest) = Converted (a * 16 + b)"
proof -
  have small: "(a * 16 + b) mod 4294967296 = a * 16 + b"
    using a b by simp
  have zero: "digit_value CHR ''0'' = 0"
    by (simp add: digit_value_def)
  show ?thesis
  proof (cases "xdigit_char a = CHR ''0''")
    case True
    then have a0: "a = 0" using xdigit_char_props(8) [OF a] by simp
    have chr0: "\<not> isspace CHR ''0''" "isxdigit CHR ''0''"
      by (simp_all add: isspace_def isxdigit_def isdigit_def)
    show ?thesis
      unfolding True using b a0
      by (simp add: sscanf_x_def Let_def xdigit_char_props(1-7) [OF b] zero chr0)
  next
    case False
    then show ?thesis
      using small
      by (simp add: sscanf_x_def Let_def xdigit_char_props(1-7) [OF a]
          xdigit_char_props(1-7) [OF b])
  qed
qed

lemma printf_02x_digits:
  "printf_02x b = [xdigit_char (unat b div 16), xdigit_char (unat b mod 16)] \<and>
   unat b div 16 < 16 \<and> unat b mod 16 < 16"
proof -
  have "unat b < 256" using unsigned_less [of b, where ?'a = nat] by simp
  then show ?thesis by (simp add: printf_02x_def)
qed

lemma sscanf_x_printf_02x: "sscanf_x 2 (printf_02x b @ rest) = Converted (unat b)"
proof -
  have "sscanf_x 2 (xdigit_char (unat b div 16) # xdigit_char (unat b mod 16) # rest) =
        Converted (unat b div 16 * 16 + unat b mod 16)"
    using printf_02x_digits [of b] by (intro sscanf_x_two_digits) simp_all
  then show ?thesis by (simp add: printf_02x_def)
qed

lemma store_uint_byte:
  "store_uint buf p (unat (b :: byte)) = buf[p := b, p + 1 := 0, p + 2 := 0, p + 3 := 0]"
proof -
  have "unat b < 256" using unsigned_less [of b, where ?'a = nat] by simp
  then show ?thesis by (simp add: store_uint_def)
qed

lemma hex_to_binary_from_pair:
  "hex_to_binary_from buf p (printf_02x b @ rest) count =
   hex_to_binary_from (buf[p := b, p + 1 := 0, p + 2 := 0, p + 3 := 0]) (Suc p) rest (count + 1)"
proof -
  have "sscanf_x 2 (xdigit_char (unat b div 16) # xdigit_char (unat b mod 16) # rest) =
        Converted (unat b)"
    using sscanf_x_printf_02x [of b rest] by (simp add: printf_02x_def)
  then show ?thesis
    by (simp add: printf_02x_def store_uint_byte)
qed

lemma hex_to_binary_from_encoded:
  "fst (hex_to_binary_from buf p (concat (map printf_02x bs)) count) = count + int (length bs) \<and>
   length (snd (hex_to_binary_from buf p (concat (map printf_02x bs)) count)) = length buf \<and>
   take p (snd (hex_to_binary_from buf p (concat (map printf_02x bs)) count)) = take p buf \<and>
   (p + length bs \<le> length buf \<longrightarrow>
      take (length bs) (drop p (snd (hex_to_binary_from buf p (concat (map printf_02x bs)) count)))
        = bs)"
proof (induction bs arbitrary: buf p count)
  case Nil
  show ?case by simp
next
  case (Cons b bs)
  let ?B = "buf[p := b, p + 1 := 0, p + 2 := 0, p + 3 := 0]"
  let ?R = "snd (hex_to_binary_from ?B (Suc p) (concat (map printf_02x bs)) (count + 1))"
  have step: "hex_to_binary_from buf p (concat (map printf_02x (b # bs))) count =
        hex_to_binary_from ?B (Suc p) (concat (map printf_02x bs)) (count + 1)"
    by (simp add: hex_to_binary_from_pair)
  note IH = Cons.IH [of ?B "Suc p" "count + 1"]
  have cnt: "fst (hex_to_binary_from ?B (Suc p) (concat (map printf_02x bs)) (count + 1)) =
        count + int (length (b # bs))"
    using IH by simp
  have len: "length ?R = length buf"
    using IH by simp
  have pre: "take (Suc p) ?R = take (Suc p) ?B"
    using IH by simp
  have "take p (take (Suc p) ?R) = take p (take (Suc p) ?B)"
    by (simp only: pre)
  then have low: "take p ?R = take p buf"
    by (simp add: min_def)
  have body: "take (length (b # bs)) (drop p ?R) = b # bs" if fit: "p + length (b # bs) \<le> length buf"
  proof -
    have p: "p < length buf" using fit by simp
    have "take (Suc p) ?R ! p = take (Suc p) ?B ! p"
      by (simp only: pre)
    then have at: "?R ! p = b"
      using p by simp
    have rest: "take (length bs) (drop (Suc p) ?R) = bs"
      using IH fit by simp
    have "drop p ?R = ?R ! p # drop (Suc p) ?R"
      using p len by (simp add: Cons_nth_drop_Suc)
    then show ?thesis
      using at rest by simp
  qed
  show ?case
    unfolding step using cnt len low body by blast
qed

lemma print_hex_from_take:
  "i \<le> n \<Longrightarrow> n \<le> length buf \<Longrightarrow>
   print_hex_from i buf (int n) = concat (map printf_02x (drop i (take n buf))) @ [newline]"
proof (induction "n - i" arbitrary: i)
  case 0
  then show ?case by (subst print_hex_from.simps) simp
next
  case (Suc k)
  then have i: "i < n" by simp
  have "print_hex_from (Suc i) buf (int n) =
        concat (map printf_02x (drop (Suc i) (take n buf))) @ [newline]"
    using Suc by (intro Suc.hyps(1)) simp_all
  moreover have "drop i (take n buf) = buf ! i # drop (Suc i) (take n buf)"
    using i Suc.prems by (simp add: Cons_nth_drop_Suc [symmetric])
  ultimately show ?case
    using i by (subst print_hex_from.simps) simp
qed

lemma printf_02x_chars: "set (printf_02x b) \<subseteq> lower_hex"
  using printf_02x_digits [of b] by (simp add: printf_02x_def xdigit_char_props(9))

lemma length_encoded: "length (concat (map printf_02x bs)) = 2 * length bs"
  by (induction bs) (simp_all add: printf_02x_def)

lemma set_encoded: "set (concat (map printf_02x bs)) \<subseteq> lower_hex"
  using printf_02x_chars by (induction bs) simp_all

text \<open>
  Claim C7. For every byte sequence at the start of a block, \<^verbatim>\<open>print_hex\<close> with its
  length writes two lowercase hexadecimal digits for each byte, in order and without
  separators, and then one newline, so \<open>L\<close> bytes give \<open>2 * L\<close> digits and a newline; and \<^verbatim>\<open>hex_to_binary\<close>, given
  these digits and a block of the size \<^verbatim>\<open>main\<close> allocates for them, returns the number
  of bytes and leaves the original bytes at the start of the block.
\<close>

theorem hex_round_trip:
  "print_hex (bs @ rest) (int (length bs)) = concat (map printf_02x bs) @ [newline] \<and>
   length (concat (map printf_02x bs)) = 2 * length bs \<and>
   set (concat (map printf_02x bs)) \<subseteq> lower_hex \<and>
   fst (hex_to_binary (calloc (length (concat (map printf_02x bs)) div 2 + 3))
          (concat (map printf_02x bs))) = int (length bs) \<and>
   take (length bs)
     (snd (hex_to_binary (calloc (length (concat (map printf_02x bs)) div 2 + 3))
          (concat (map printf_02x bs)))) = bs"
proof -
  have out: "print_hex (bs @ rest) (int (length bs)) = concat (map printf_02x bs) @ [newline]"
    using print_hex_from_take [of 0 "length bs" "bs @ rest"] by (simp add: print_hex_def)
  have "0 + length bs \<le> length (calloc (length (concat (map printf_02x bs)) div 2 + 3))"
    by (simp add: length_encoded calloc_def)
  then show ?thesis
    using out length_encoded [of bs] set_encoded [of bs]
      hex_to_binary_from_encoded
        [of "calloc (length (concat (map printf_02x bs)) div 2 + 3)" 0 bs 0]
    by (simp add: hex_to_binary_def)
qed

subsection \<open>Runs of \<^verbatim>\<open>main\<close>\<close>

lemma main_accepted:
  assumes "args_accepted e argv"
  shows "main e argv inp =
     main_read e (snd (salt_of argv)) (fst (salt_of argv)) (count_of argv) (keysize_of e argv) inp"
proof -
  from assms have l: "length argv = 4" and s: "\<not> fst (salt_of argv) \<le> 0"
    and c: "\<not> (sscanf_ret (sscanf_d (argv ! 2)) = 0 \<or> count_of argv \<le> 0)"
    and k: "\<not> (sscanf_ret (sscanf_d (argv ! 3)) = 0 \<or> keysize_of e argv \<le> 0)"
    by (auto simp: args_accepted_def)
  show ?thesis
    unfolding main_def Let_def salt_of_def [symmetric] count_of_def [symmetric]
      keysize_of_def [symmetric]
    using l s c k by (simp only: if_False if_True not_not simp_thms)
qed

lemma list_update_Cons_numeral: "(x # xs)[numeral v := y] = x # xs[numeral v - 1 := y]"
  by (simp add: numeral_eq_Suc)

lemma replicate_numeral: "replicate (numeral v) x = x # replicate (numeral v - 1) x"
  by (simp add: numeral_eq_Suc)

lemmas list_eval = list_update_Cons_numeral replicate_numeral

lemmas scan_eval = sscanf_x_def sscanf_d_def strtol_value_def int_of_long_def isspace_def
  isxdigit_def isdigit_def digit_value_def Let_def

lemma decode_0011: "hex_to_binary (calloc 5) ''0011'' = (2, [0, 0x11, 0, 0, 0])"
  by (simp add: hex_to_binary_def scan_eval store_uint_def calloc_def list_eval)

lemma salt_of_sample: "salt_of sample_argv = (2, [0, 0x11, 0, 0, 0])"
  by (simp add: salt_of_def sample_argv_def decode_0011)

lemma sscanf_d_4: "sscanf_d ''4'' = Converted 4"
  by (simp add: scan_eval)

lemma sscanf_d_1: "sscanf_d ''1'' = Converted 1"
  by (simp add: scan_eval)

lemma count_of_sample: "count_of sample_argv = 1"
  by (simp add: count_of_def sample_argv_def sscanf_d_1)

lemma keysize_of_sample: "keysize_of e sample_argv = 4"
  by (simp add: keysize_of_def sample_argv_def sscanf_d_4)

lemma sample_accepted: "args_accepted e sample_argv"
  unfolding args_accepted_def salt_of_sample count_of_sample keysize_of_sample
  by (simp add: sample_argv_def sscanf_d_4 sscanf_d_1)

lemma main_sample: "main e sample_argv inp = main_read e [0, 0x11, 0, 0, 0] 2 1 4 inp"
  by (simp add: main_accepted [OF sample_accepted] salt_of_sample count_of_sample
      keysize_of_sample)

lemma replicate_update_same: "(replicate n x)[i := x] = replicate n x"
  by (induction n arbitrary: i) (simp_all split: nat.split)

lemma read_passphrase_short:
  assumes "length inp \<le> 1"
  shows "\<exists>pass pw_len.
           read_passphrase e inp = Read_Done pass pw_len BLOCK_SIZE \<and> pw_len \<le> 1 \<and>
           pass[0 := 0] = calloc BLOCK_SIZE"
proof (cases inp)
  case Nil
  then show ?thesis
    by (simp add: read_passphrase_Nil calloc_def replicate_update_same)
next
  case (Cons b bs)
  with assms have "inp = [b]" by simp
  then show ?thesis
    by (simp add: read_passphrase_single calloc_def replicate_update_same)
qed

lemma main_read_short:
  assumes "length inp \<le> 1"
  shows "exit_code (main_read e salt salt_len ic result_len inp) = 1"
    and "stdout (main_read e salt salt_len ic result_len inp) = []"
    and "stderr (main_read e salt salt_len ic result_len inp) =
           ''Error: password is empty'' @ [newline]"
    and "kdf_calls (main_read e salt salt_len ic result_len inp) = []"
    and "freed_result (main_read e salt salt_len ic result_len inp) = None"
    and "freed_pass (main_read e salt salt_len ic result_len inp) = Some (calloc BLOCK_SIZE)"
    and "freed_salt (main_read e salt salt_len ic result_len inp) =
           Some (zero_from 0 salt_len salt)"
    and "leaked (main_read e salt salt_len ic result_len inp) = []"
  using read_passphrase_short [OF assms, of e]
  by (auto simp: main_read_def exit_clean_def cleanup_def blank_from_first)

text \<open>
  Claim C5. When the arguments are accepted and standard input holds no byte or a single
  byte (a lone terminator), the run ends with the message of the empty password and exit
  code 1, writes nothing to standard output, and \<^verbatim>\<open>cleanup\<close> has run: the passphrase
  block is freed with every byte zero, the salt block is freed with its \<^verbatim>\<open>salt_len\<close>
  bytes zero, no result block exists yet, and no block is left behind.
\<close>

theorem empty_passphrase_rejected:
  assumes "args_accepted e argv" and "length inp \<le> 1"
  shows "exit_code (main e argv inp) = 1 \<and>
         stderr (main e argv inp) = ''Error: password is empty'' @ [newline] \<and>
         stdout (main e argv inp) = [] \<and>
         freed_pass (main e argv inp) = Some (replicate BLOCK_SIZE 0) \<and>
         (\<exists>salt. freed_salt (main e argv inp) = Some salt \<and>
            length salt = length (snd (salt_of argv)) \<and>
            (\<forall>j < length salt. int j < fst (salt_of argv) \<longrightarrow> salt ! j = 0)) \<and>
         freed_result (main e argv inp) = None \<and>
         leaked (main e argv inp) = []"
  unfolding main_accepted [OF assms(1)]
  by (simp add: main_read_short [OF assms(2)] nth_zero_from calloc_def)

theorem empty_passphrase_rejected_witness:
  "args_accepted sample_env sample_argv \<and> length ([0x0A] :: byte list) \<le> 1 \<and>
   exit_code (main sample_env sample_argv [0x0A]) = 1 \<and>
   stderr (main sample_env sample_argv [0x0A]) = ''Error: password is empty'' @ [newline] \<and>
   stdout (main sample_env sample_argv [0x0A]) = [] \<and>
   freed_pass (main sample_env sample_argv [0x0A]) = Some (replicate BLOCK_SIZE 0) \<and>
   leaked (main sample_env sample_argv [0x0A]) = []"
  using empty_passphrase_rejected [of sample_env sample_argv "[0x0A]"] sample_accepted
  by simp

text \<open>
  Claim C10. When the arguments are accepted and standard input holds exactly one byte,
  whatever the byte is (a newline or, say, the letter a), the run ends with the message
  of the empty password and exit code 1; the key derivation is never called and nothing
  is written to standard output.
\<close>

theorem single_byte_rejected:
  assumes "args_accepted e argv"
  shows "exit_code (main e argv [b]) = 1 \<and>
         stderr (main e argv [b]) = ''Error: password is empty'' @ [newline] \<and>
         kdf_calls (main e argv [b]) = [] \<and>
         stdout (main e argv [b]) = []"
  unfolding main_accepted [OF assms]
  by (simp add: main_read_short)

theorem single_byte_rejected_witness:
  "args_accepted sample_env sample_argv \<and>
   exit_code (main sample_env sample_argv [0x61]) = 1 \<and>
   stderr (main sample_env sample_argv [0x61]) = ''Error: password is empty'' @ [newline] \<and>
   kdf_calls (main sample_env sample_argv [0x61]) = [] \<and>
   stdout (main sample_env sample_argv [0x61]) = []"
  using single_byte_rejected [of sample_env sample_argv "0x61"] sample_accepted
  by simp

lemma main_derive_fields:
  "exit_code (main_derive e salt salt_len ic result_len pass pw_len) =
     (if gcry_check_version e then 0 else 2)"
  "kdf_calls (main_derive e salt salt_len ic result_len pass pw_len) =
     (if gcry_check_version e
      then [\<lparr>call_pass = pass, call_passlen = pw_len - 1, call_salt = salt,
             call_saltlen = salt_len, call_iterations = ic, call_keysize = result_len\<rparr>]
      else [])"
  "freed_pass (main_derive e salt salt_len ic result_len pass pw_len) = Some (pass[0 := 0])"
  "leaked (main_derive e salt salt_len ic result_len pass pw_len) = []"
  by (simp_all add: main_derive_def exit_clean_def cleanup_def blank_from_first Let_def)

lemma main_read_done:
  "read_passphrase e inp = Read_Done pass pw_len buff_len \<Longrightarrow>
   main_read e salt salt_len ic result_len inp =
     (if pw_len \<le> 1 then
        exit_clean 1 [] (''Error: password is empty'' @ [newline]) []
          (cleanup None result_len (Some pass) (Some salt) salt_len) []
      else main_derive e salt salt_len ic result_len (pass[pw_len - 1 := 0]) pw_len)"
  by (simp add: main_read_def)

lemma main_read_alloc_failed:
  "read_passphrase e inp = Alloc_Failed old \<Longrightarrow>
   main_read e salt salt_len ic result_len inp =
     exit_clean 3 [] ''Error allocating memory'' []
       (cleanup None result_len None (Some salt) salt_len) [old]"
  by (simp add: main_read_def)

lemma read_loop_minus_one:
  "read_loop e (- 1) inp pass pw_len buff_len = Read_Done pass pw_len buff_len"
  by (subst read_loop.simps) (simp add: EOF_def)

lemmas read_eval = read_passphrase_def read_loop_store read_loop_EOF read_loop_minus_one
  EOF_def BLOCK_SIZE_def calloc_def

lemma read_a_255: 
  "read_passphrase e [0x61, 0xFF, 0x62, 0x0A] = Read_Done ((calloc BLOCK_SIZE)[0 := 0x61]) 1 BLOCK_SIZE"
  by (simp add: read_eval)

text \<open>
  Claim C1, at the input \<open>a\<close>, byte 255, \<open>b\<close>, newline. The claim says that every byte
  before the end of the stream reaches the passphrase buffer. The reader keeps the result
  of \<^verbatim>\<open>getchar\<close> in a \<^verbatim>\<open>char\<close>, so the byte 255 compares equal to \<^verbatim>\<open>EOF\<close>: the
  loop ends there with one byte stored, and the run reports an empty password although
  the stream holds the passphrase \<open>a\<close>, 255, \<open>b\<close>. (Where \<^verbatim>\<open>char\<close> is unsigned the
  comparison never holds and the loop does not end at the end of the stream.) For
  streams without the byte 255 (shorter than \<open>2^30\<close> bytes) the reader does keep every
  byte: \<open>read_passphrase_all\<close>.
\<close>

theorem reader_stops_at_byte_255:
  "read_passphrase e [0x61, 0xFF, 0x62, 0x0A] =
     Read_Done ((calloc BLOCK_SIZE)[0 := 0x61]) 1 BLOCK_SIZE \<and>
   exit_code (main e sample_argv [0x61, 0xFF, 0x62, 0x0A]) = 1 \<and>
   stderr (main e sample_argv [0x61, 0xFF, 0x62, 0x0A]) =
     ''Error: password is empty'' @ [newline] \<and>
   kdf_calls (main e sample_argv [0x61, 0xFF, 0x62, 0x0A]) = []"
  by (simp add: read_a_255 main_sample main_read_done [OF read_a_255] exit_clean_def)

lemma read_test:
  "read_passphrase e [0x74, 0x65, 0x73, 0x74, 0x0A] =
     Read_Done ([0x74, 0x65, 0x73, 0x74, 0x0A] @ replicate 35 0) 5 40"
  by (simp add: read_eval list_eval)

lemma read_nul:
  "read_passphrase e [0x61, 0, 0x62, 0x0A] =
     Read_Done ([0x61, 0, 0x62, 0x0A] @ replicate 36 0) 4 40"
  by (simp add: read_eval list_eval)

text \<open>
  Claim C2, at the inputs \<open>test\<close>, newline and \<open>a\<close>, NUL, \<open>b\<close>, newline. The claim says
  that release zeroes every used byte before the block is freed. The loop of
  \<^verbatim>\<open>cleanup\<close> evaluates \<^verbatim>\<open>strlen(pass)\<close> again after it has zeroed the first byte, so
  it stops after one round (\<open>blank_from_first\<close>): the block is handed to \<^verbatim>\<open>free\<close>
  with \<open>est\<close> still in it, and in the second run with the \<open>b\<close> behind the NUL.
\<close>

theorem passphrase_left_in_freed_block:
  "freed_pass (main e sample_argv [0x74, 0x65, 0x73, 0x74, 0x0A]) =
     Some ([0, 0x65, 0x73, 0x74, 0] @ replicate 35 0) \<and>
   freed_pass (main e sample_argv [0x61, 0, 0x62, 0x0A]) =
     Some ([0, 0, 0x62, 0] @ replicate 36 0)"
  by (simp add: main_sample main_read_done [OF read_test] main_read_done [OF read_nul]
      main_derive_fields list_eval)

lemma read_ab:
  "read_passphrase e [0x61, 0x62, 0x0A] = Read_Done ([0x61, 0x62, 0x0A] @ replicate 37 0) 3 40"
  by (simp add: read_eval list_eval)

lemma read_alloc_failed:
  "read_passphrase (sample_env\<lparr>realloc_ok := \<lambda>n. False\<rparr>) (replicate 41 0x61) =
     Alloc_Failed (replicate 40 0x61)"
  by code_simp

text \<open>
  Claim C3, at an input of 41 bytes \<open>a\<close> when \<^verbatim>\<open>realloc\<close> fails. The claim says that
  every exit path zeroes the secret buffers before their storage is released or
  abandoned. The failed \<^verbatim>\<open>realloc\<close> has overwritten \<^verbatim>\<open>pass\<close> with \<^verbatim>\<open>NULL\<close>, so
  \<^verbatim>\<open>cleanup\<close> skips the passphrase: the run exits with code 3, frees no passphrase
  block, and leaves the old block behind with the 40 bytes read so far.
\<close>

theorem failed_growth_abandons_passphrase:
  "exit_code (main (sample_env\<lparr>realloc_ok := \<lambda>n. False\<rparr>) sample_argv (replicate 41 0x61)) = 3 \<and>
   freed_pass (main (sample_env\<lparr>realloc_ok := \<lambda>n. False\<rparr>) sample_argv (replicate 41 0x61)) =
     None \<and>
   leaked (main (sample_env\<lparr>realloc_ok := \<lambda>n. False\<rparr>) sample_argv (replicate 41 0x61)) =
     [replicate 40 0x61]"
  by (simp only: main_sample main_read_alloc_failed [OF read_alloc_failed])
    (simp add: exit_clean_def cleanup_def)

lemma scan_1z: "sscanf_x 2 ''1z'' = Converted 1"
  by (simp add: scan_eval)

lemma decode_1z: "hex_to_binary (calloc 4) ''1z'' = (1, [1, 0, 0, 0])"
  by (simp add: hex_to_binary_def scan_1z store_uint_def calloc_def list_eval)

text \<open>
  Claim C6, at the salt \<open>1z\<close>. The claim says that decoding fails whenever a group of
  two digits is not valid hexadecimal. \<^verbatim>\<open>sscanf\<close> with \<^verbatim>\<open>%2x\<close> converts the leading
  \<open>1\<close>, stops at the \<open>z\<close> and returns 1, so \<^verbatim>\<open>hex_to_binary\<close> returns one byte of
  value 1 and the run goes on to derive a key with that salt.
\<close>

theorem invalid_hex_group_accepted:
  "hex_to_binary (calloc 4) ''1z'' = (1, [1, 0, 0, 0]) \<and>
   exit_code (main sample_env [''pbkdf2'', ''1z'', ''1'', ''4''] [0x61, 0x62, 0x0A]) = 0 \<and>
   map call_salt (kdf_calls (main sample_env [''pbkdf2'', ''1z'', ''1'', ''4''] [0x61, 0x62, 0x0A]))
     = [[1, 0, 0, 0]]"
  by (simp add: decode_1z main_def sscanf_d_1 sscanf_d_4 main_read_done [OF read_ab]
      main_derive_fields sample_env_def)

lemma scan_5x: "sscanf_d ''5x'' = Converted 5"
  by (simp add: scan_eval)

lemma scan_empty: "sscanf_d [] = Input_Failure"
  by (simp add: scan_eval)

text \<open>
  Claim C8, at the iteration count \<open>5x\<close> and at the empty output length. The claim says
  that a non-numeric iteration count or output length ends the run before any key
  derivation. \<^verbatim>\<open>sscanf\<close> with \<^verbatim>\<open>%d\<close> converts the leading \<open>5\<close> of \<open>5x\<close> and returns
  1, so the key is derived with 5 iterations. For the empty string \<^verbatim>\<open>sscanf\<close> returns
  \<^verbatim>\<open>EOF\<close>, which the test \<^verbatim>\<open>== 0\<close> lets pass, and \<^verbatim>\<open>result_len\<close> keeps the value
  it had before, which the program never set (7 in this run): the key is derived with it.
\<close>

theorem invalid_parameters_accepted:
  "exit_code (main sample_env [''pbkdf2'', ''0011'', ''5x'', ''4''] [0x61, 0x62, 0x0A]) = 0 \<and>
   map call_iterations
     (kdf_calls (main sample_env [''pbkdf2'', ''0011'', ''5x'', ''4''] [0x61, 0x62, 0x0A])) = [5] \<and>
   exit_code (main (sample_env\<lparr>result_len_init := 7\<rparr>) [''pbkdf2'', ''0011'', ''1'', '''']
     [0x61, 0x62, 0x0A]) = 0 \<and>
   map call_keysize
     (kdf_calls (main (sample_env\<lparr>result_len_init := 7\<rparr>) [''pbkdf2'', ''0011'', ''1'', '''']
        [0x61, 0x62, 0x0A])) = [7]"
  by (simp add: decode_0011 main_def sscanf_d_1 sscanf_d_4 scan_5x scan_empty EOF_def
      main_read_done [OF read_ab] main_derive_fields sample_env_def)

text \<open>
  Numerals outside the range of \<^verbatim>\<open>int\<close> are cut to 32 bits before the tests of
  \<^verbatim>\<open>main\<close> see them: the count \<open>4294967296\<close> is rejected as 0, the count
  \<open>-4294967295\<close> is accepted as 1.
\<close>

lemma sscanf_d_wraps:
  "sscanf_d ''4294967296'' = Converted 0"
  "sscanf_d ''-4294967295'' = Converted 1"
  "sscanf_d ''4294967300'' = Converted 4"
  "sscanf_d ''3000000000'' = Converted (- 1294967296)"
  by (simp_all add: scan_eval)

lemma count_4294967296_rejected:
  "main e [''pbkdf2'', ''0011'', ''4294967296'', ''4''] inp =
     exit_early 1 (''Error: count must be a positive integer'' @ [newline]) [[0, 0x11, 0, 0, 0]]"
  by (simp add: main_def decode_0011 sscanf_d_wraps)

lemma count_minus_4294967295_accepted:
  "args_accepted e [''pbkdf2'', ''0011'', ''-4294967295'', ''4'']"
  by (simp add: args_accepted_def salt_of_def count_of_def keysize_of_def decode_0011
      sscanf_d_wraps sscanf_d_4)

text \<open>
  What the reader and \<^verbatim>\<open>main\<close> do with an input of at least two bytes that holds no
  byte 255 (and is shorter than \<open>2^30\<close> bytes): the byte behind the kept bytes is set to
  zero, the key derivation is called once, with the input without its last byte, and the
  key derived from those bytes is printed.
\<close>

lemma passphrase_without_last_byte_derived:
  assumes acc: "args_accepted e argv" and lib: "gcry_check_version e"
    and ok: "\<forall>n. realloc_ok e n" and inp: "0xFF \<notin> set inp" and two: "2 \<le> length inp"
    and short: "length inp < 1073741824"
  shows "exit_code (main e argv inp) = 0 \<and>
         (\<exists>call. kdf_calls (main e argv inp) = [call] \<and>
            call_passlen call = length inp - 1 \<and>
            take (call_passlen call) (call_pass call) = butlast inp \<and>
            call_pass call ! (length inp - 1) = 0) \<and>
         stdout (main e argv inp) =
           print_hex (result_block e argv (butlast inp)) (keysize_of e argv)"
proof -
  from two have ne: "inp \<noteq> []" by auto
  from read_passphrase_all [OF ok inp ne short]
  obtain pass buff_len where
    rd: "read_passphrase e inp = Read_Done pass (length inp) buff_len"
    and len: "length pass = buff_len" and fit: "length inp \<le> buff_len"
    and content: "take (length inp) pass = inp"
    by blast
  let ?cut = "pass[length inp - 1 := 0]"
  have run: "main e argv inp =
      main_derive e (snd (salt_of argv)) (fst (salt_of argv)) (count_of argv) (keysize_of e argv)
        ?cut (length inp)"
    using two by (simp add: main_accepted [OF acc] main_read_done [OF rd])
  have "take (length inp - 1) (take (length inp) pass) = take (length inp - 1) inp"
    by (simp only: content)
  then have kept: "take (length inp - 1) ?cut = butlast inp"
    by (simp add: butlast_conv_take min_def)
  have zero: "?cut ! (length inp - 1) = 0"
    using two fit len by simp
  have out: "stdout (main e argv inp) =
      print_hex (result_block e argv (butlast inp)) (keysize_of e argv)"
    unfolding run using lib kept
    by (simp add: main_derive_def exit_clean_def result_block_def Let_def)
  show ?thesis
    using lib kept zero out by (simp add: run main_derive_fields)
qed

lemma read_ab_255:
  "read_passphrase e [0x61, 0x62, 0xFF, 0x63, 0x0A] =
     Read_Done ([0x61, 0x62] @ replicate 38 0) 2 40"
  by (simp add: read_eval list_eval)

lemma read_a_newline:
  "read_passphrase e [0x61, 0x0A] = Read_Done ([0x61, 0x0A] @ replicate 38 0) 2 40"
  by (simp add: read_eval list_eval)

text \<open>
  Claim C4, at the input \<open>a\<close>, \<open>b\<close>, byte 255, \<open>c\<close>, newline. The claim says that the key
  derivation uses every input byte but the trailing terminator. The reader stops at the
  byte 255 (the slip of claim C1), the byte cut off as the terminator is the \<open>b\<close>, and
  the key is derived from the single byte \<open>a\<close>: the run prints the same key as for the
  input \<open>a\<close>, newline, so the bytes \<open>b\<close>, 255 and \<open>c\<close> are not significant. For inputs
  without the byte 255 the claim holds from two bytes on:
  \<open>passphrase_without_last_byte_derived\<close>.
\<close>

theorem bytes_behind_255_not_derived:
  "exit_code (main sample_env sample_argv [0x61, 0x62, 0xFF, 0x63, 0x0A]) = 0 \<and>
   map (\<lambda>call. take (call_passlen call) (call_pass call))
     (kdf_calls (main sample_env sample_argv [0x61, 0x62, 0xFF, 0x63, 0x0A])) = [[0x61]] \<and>
   stdout (main sample_env sample_argv [0x61, 0x62, 0xFF, 0x63, 0x0A]) =
     stdout (main sample_env sample_argv [0x61, 0x0A])"
  by (simp add: main_sample main_read_done [OF read_ab_255] main_read_done [OF read_a_newline]
      main_derive_fields list_eval sample_env_def)

lemma decode_zz: "hex_to_binary (calloc 4) ''zz'' = (- 1, [0, 0, 0, 0])"
  by (simp add: hex_to_binary_def scan_eval calloc_def list_eval)

lemma scan_x5: "sscanf_d ''x5'' = Matching_Failure"
  by (simp add: scan_eval)

text \<open>
  Claim C9, at the salt \<open>1z\<close> and at the iteration count \<open>5x\<close>, each with the passphrase
  \<open>ab\<close>, newline. The claim says that an invalid salt and an invalid iteration count
  exit with code 1. The salt \<open>zz\<close> and the count \<open>x5\<close> do; the salt \<open>1z\<close> and the count
  \<open>5x\<close>, as invalid as these, pass the tests of \<^verbatim>\<open>main\<close> (the slips of claims C6 and
  C8) and the run exits with code 0, the code of success.
\<close>

theorem undetected_invalid_arguments_exit_zero:
  "exit_code (main sample_env [''pbkdf2'', ''zz'', ''1'', ''4''] [0x61, 0x62, 0x0A]) = 1 \<and>
   exit_code (main sample_env [''pbkdf2'', ''1z'', ''1'', ''4''] [0x61, 0x62, 0x0A]) = 0 \<and>
   exit_code (main sample_env [''pbkdf2'', ''0011'', ''x5'', ''4''] [0x61, 0x62, 0x0A]) = 1 \<and>
   exit_code (main sample_env [''pbkdf2'', ''0011'', ''5x'', ''4''] [0x61, 0x62, 0x0A]) = 0"
  by (simp add: main_def decode_zz decode_1z decode_0011 scan_x5 scan_5x sscanf_d_1 sscanf_d_4
      exit_early_def main_read_done [OF read_ab] main_derive_fields sample_env_def)

end
